theory Spec2Isabelle
  imports Main "HOL-Library.Word"
begin

section \<open>Go strings and the three library calls the classifier uses\<close>

text \<open>
  A Go string is a sequence of bytes; an Isabelle \<^typ>\<open>string\<close> is a list of
  8-bit characters, so the two coincide. The package \<^verbatim>\<open>strings\<close> is not part of
  the repository; \<^verbatim>\<open>HasSuffix\<close>, \<^verbatim>\<open>TrimSuffix\<close> and \<^verbatim>\<open>TrimSpace\<close> are written
  here after the Go standard library:
  \<^verbatim>\<open>
  func HasSuffix(s, suffix string) bool {
      return len(s) >= len(suffix) && s[len(s)-len(suffix):] == suffix
  }
  func TrimSuffix(s, suffix string) string {
      if HasSuffix(s, suffix) { return s[:len(s)-len(suffix)] }
      return s
  }
  \<close>
\<close>

definition HasSuffix :: "string \<Rightarrow> string \<Rightarrow> bool" where
  "HasSuffix s suf =
     (length s \<ge> length suf \<and> drop (length s - length suf) s = suf)"

definition TrimSuffix :: "string \<Rightarrow> string \<Rightarrow> string" where
  "TrimSuffix s suf =
     (if HasSuffix s suf then take (length s - length suf) s else s)"

text \<open>
  \<^verbatim>\<open>TrimSpace\<close> removes leading and trailing white space "as defined by Unicode"
  (\<^verbatim>\<open>unicode.IsSpace\<close>). On the bytes of a string these are the UTF-8 encodings of
  U+0009..U+000D, U+0020, U+0085, U+00A0, U+1680, U+2000..U+200A, U+2028, U+2029,
  U+202F, U+205F and U+3000. A byte sequence that is not one of these encodings decodes
  to a rune that is not white space, and trimming stops there.
\<close>

definition spaceRunes :: "string list" where
  "spaceRunes =
     [[CHR 0x09], [CHR 0x0A], [CHR 0x0B], [CHR 0x0C], [CHR 0x0D], [CHR 0x20],
      [CHR 0xC2, CHR 0x85], [CHR 0xC2, CHR 0xA0],
      [CHR 0xE1, CHR 0x9A, CHR 0x80],
      [CHR 0xE2, CHR 0x80, CHR 0x80], [CHR 0xE2, CHR 0x80, CHR 0x81],
      [CHR 0xE2, CHR 0x80, CHR 0x82], [CHR 0xE2, CHR 0x80, CHR 0x83],
      [CHR 0xE2, CHR 0x80, CHR 0x84], [CHR 0xE2, CHR 0x80, CHR 0x85],
      [CHR 0xE2, CHR 0x80, CHR 0x86], [CHR 0xE2, CHR 0x80, CHR 0x87],
      [CHR 0xE2, CHR 0x80, CHR 0x88], [CHR 0xE2, CHR 0x80, CHR 0x89],
      [CHR 0xE2, CHR 0x80, CHR 0x8A],
      [CHR 0xE2, CHR 0x80, CHR 0xA8], [CHR 0xE2, CHR 0x80, CHR 0xA9],
      [CHR 0xE2, CHR 0x80, CHR 0xAF],
      [CHR 0xE2, CHR 0x81, CHR 0x9F],
      [CHR 0xE3, CHR 0x80, CHR 0x80]]"

text \<open>The width in bytes of the white-space rune a string starts (ends) with, 0 if none.\<close>

definition leadingSpace :: "string \<Rightarrow> nat" where
  "leadingSpace s =
     (case find (\<lambda>e. take (length e) s = e) spaceRunes of
        None \<Rightarrow> 0
      | Some e \<Rightarrow> length e)"

definition trailingSpace :: "string \<Rightarrow> nat" where
  "trailingSpace s =
     (case find (\<lambda>e. HasSuffix s e) spaceRunes of
        None \<Rightarrow> 0
      | Some e \<Rightarrow> length e)"

function TrimLeftSpace :: "string \<Rightarrow> string" where
  "TrimLeftSpace s =
     (if leadingSpace s = 0 then s else TrimLeftSpace (drop (leadingSpace s) s))"
  by pat_completeness auto
termination
proof (relation "measure length")
  show "wf (measure length)" by simp
next
  fix s :: string
  assume pos: "leadingSpace s \<noteq> 0"
  have "leadingSpace [] = 0"
    by (simp add: leadingSpace_def spaceRunes_def)
  with pos have "s \<noteq> []" by auto
  with pos show "(drop (leadingSpace s) s, s) \<in> measure length"
    by simp
qed

function TrimRightSpace :: "string \<Rightarrow> string" where
  "TrimRightSpace s =
     (if trailingSpace s = 0 then s
      else TrimRightSpace (take (length s - trailingSpace s) s))"
  by pat_completeness auto
termination
proof (relation "measure length")
  show "wf (measure length)" by simp
next
  fix s :: string
  assume pos: "trailingSpace s \<noteq> 0"
  have "trailingSpace [] = 0"
    by (simp add: trailingSpace_def spaceRunes_def HasSuffix_def)
  with pos have "s \<noteq> []" by auto
  with pos show "(take (length s - trailingSpace s) s, s) \<in> measure length"
    by simp
qed

declare TrimLeftSpace.simps [simp del]
declare TrimRightSpace.simps [simp del]

definition TrimSpace :: "string \<Rightarrow> string" where
  "TrimSpace s = TrimRightSpace (TrimLeftSpace s)"

section \<open>Messages (drush.go)\<close>

text \<open>
  \<^verbatim>\<open>type DrushMessageType string\<close>: a message type is the marker text itself, and
  \<^verbatim>\<open>String()\<close> is the identity. \<^verbatim>\<open>DrushMessageSuccess\<close> exists only in the
  revision of drush.go that names the set type \<^verbatim>\<open>DrushMessages\<close>.
\<close>

type_synonym DrushMessageType = string

definition DrushMessageError :: DrushMessageType where
  "DrushMessageError = ''[error]''"

definition DrushMessageWarning :: DrushMessageType where
  "DrushMessageWarning = ''[warning]''"

definition DrushMessageNotice :: DrushMessageType where
  "DrushMessageNotice = ''[notice]''"

definition DrushMessageOK :: DrushMessageType where
  "DrushMessageOK = ''[ok]''"

definition DrushMessageSuccess :: DrushMessageType where
  "DrushMessageSuccess = ''[success]''"

definition DrushMessageUnknown :: DrushMessageType where
  "DrushMessageUnknown = ''[unknown]''"

record DrushMessage =
  Message :: string
  Type :: DrushMessageType

text \<open>\<^verbatim>\<open>NewDrushMessage\<close> of the \<^verbatim>\<open>DrushMessageSet\<close> revision (drush.go, 434-452).\<close>

definition NewDrushMessage :: "string \<Rightarrow> DrushMessage" where
  "NewDrushMessage messageline =
     (let mestype =
        (if HasSuffix messageline DrushMessageError then DrushMessageError
         else if HasSuffix messageline DrushMessageWarning then DrushMessageWarning
         else if HasSuffix messageline DrushMessageNotice then DrushMessageWarning
         else if HasSuffix messageline DrushMessageOK then DrushMessageOK
         else DrushMessageUnknown);
          messageline1 = TrimSuffix messageline mestype;
          messageline2 = TrimSpace messageline1
      in \<lparr>Message = messageline2, Type = mestype\<rparr>)"

text \<open>\<^verbatim>\<open>NewDrushMessage\<close> of the \<^verbatim>\<open>DrushMessages\<close> revision (drush.go, 222-242).\<close>

definition NewDrushMessage_DrushMessages :: "string \<Rightarrow> DrushMessage" where
  "NewDrushMessage_DrushMessages messageline =
     (let mestype =
        (if HasSuffix messageline DrushMessageError then DrushMessageError
         else if HasSuffix messageline DrushMessageWarning then DrushMessageWarning
         else if HasSuffix messageline DrushMessageNotice then DrushMessageWarning
         else if HasSuffix messageline DrushMessageOK then DrushMessageOK
         else if HasSuffix messageline DrushMessageSuccess then DrushMessageSuccess
         else DrushMessageUnknown);
          messageline1 = TrimSuffix messageline mestype;
          messageline2 = TrimSpace messageline1
      in \<lparr>Message = messageline2, Type = mestype\<rparr>)"

section \<open>Message sets\<close>

text \<open>
  \<^verbatim>\<open>type DrushMessageSet []DrushMessage\<close>. A Go slice is either nil or a sequence
  (possibly empty); the predicates test for nil, so the model keeps the difference:
  \<open>None\<close> is the nil slice. \<^verbatim>\<open>append\<close> of one element gives a non-nil slice.
\<close>

type_synonym DrushMessageSet = "DrushMessage list option"

definition appendMessage :: "DrushMessageSet \<Rightarrow> DrushMessage \<Rightarrow> DrushMessageSet" where
  "appendMessage des m =
     (case des of None \<Rightarrow> Some [m] | Some ms \<Rightarrow> Some (ms @ [m]))"

definition len :: "DrushMessageSet \<Rightarrow> nat" where
  "len des = (case des of None \<Rightarrow> 0 | Some ms \<Rightarrow> length ms)"

text \<open>Each predicate is a loop that returns at the first message of its type.\<close>

primrec rangeHasErrors :: "DrushMessage list \<Rightarrow> bool" where
  "rangeHasErrors [] = False"
| "rangeHasErrors (m # ms) =
     (if Type m = DrushMessageError then True else rangeHasErrors ms)"

primrec rangeHasWarnings :: "DrushMessage list \<Rightarrow> bool" where
  "rangeHasWarnings [] = False"
| "rangeHasWarnings (m # ms) =
     (if Type m = DrushMessageWarning then True else rangeHasWarnings ms)"

primrec rangeHasNotices :: "DrushMessage list \<Rightarrow> bool" where
  "rangeHasNotices [] = False"
| "rangeHasNotices (m # ms) =
     (if Type m = DrushMessageNotice then True else rangeHasNotices ms)"

primrec rangeHasUnknowns :: "DrushMessage list \<Rightarrow> bool" where
  "rangeHasUnknowns [] = False"
| "rangeHasUnknowns (m # ms) =
     (if Type m = DrushMessageUnknown then True else rangeHasUnknowns ms)"

definition HasErrors :: "DrushMessageSet \<Rightarrow> bool" where
  "HasErrors des = (case des of None \<Rightarrow> False | Some ms \<Rightarrow> rangeHasErrors ms)"

definition HasWarnings :: "DrushMessageSet \<Rightarrow> bool" where
  "HasWarnings des = (case des of None \<Rightarrow> False | Some ms \<Rightarrow> rangeHasWarnings ms)"

definition HasNotices :: "DrushMessageSet \<Rightarrow> bool" where
  "HasNotices des = (case des of None \<Rightarrow> False | Some ms \<Rightarrow> rangeHasNotices ms)"

definition HasUnknowns :: "DrushMessageSet \<Rightarrow> bool" where
  "HasUnknowns des = (case des of None \<Rightarrow> False | Some ms \<Rightarrow> rangeHasUnknowns ms)"

section \<open>Running a command (drush.go)\<close>

record Drush =
  Directory :: string
  Command :: string
  Arguments :: "string list"

text \<open>The fields of \<^verbatim>\<open>exec.Cmd\<close> that \<^verbatim>\<open>buildCommand\<close> sets.\<close>

record Cmd =
  Path :: string
  Args :: "string list"
  Dir :: string
  Env :: "string list"

text \<open>
  What the operating system does with a command, as far as \<^verbatim>\<open>Run\<close> sees it: the
  error (its text) of \<^verbatim>\<open>StderrPipe\<close>, \<^verbatim>\<open>StdoutPipe\<close>, \<^verbatim>\<open>Start\<close> and \<^verbatim>\<open>Wait\<close>,
  \<open>None\<close> for a nil error; the lines the scanner reads from standard error, in order;
  the bytes read from standard output. The last field is the schedule: \<^verbatim>\<open>Run\<close> appends
  the error of \<^verbatim>\<open>Wait\<close> to \<^verbatim>\<open>errset\<close> before it joins the reader of standard error
  (\<^verbatim>\<open>wg.Wait()\<close> comes after the append), so the reader has handled some number of
  its lines by then and handles the others afterwards.
\<close>

record Process =
  StderrPipeErr :: "string option"
  StdoutPipeErr :: "string option"
  StartErr :: "string option"
  StderrLines :: "string list"
  StdoutData :: string
  WaitErr :: "string option"
  HandledAtWait :: nat

record System =
  Environ :: "string list"
  Exec :: "Cmd \<Rightarrow> Process"

definition buildCommand :: "System \<Rightarrow> Drush \<Rightarrow> Cmd" where
  "buildCommand sys d =
     (let global = [Command d, ''--yes'', ''--nocolor''];
          arguments = global @ Arguments d
      in \<lparr>Path = ''drush'', Args = arguments, Dir = Directory d,
          Env = Environ sys @ [''DRUSH_COLUMNS=10000'', ''COLUMNS=10000'']\<rparr>)"

text \<open>
  The value of the \<^verbatim>\<open>error\<close> interface that \<^verbatim>\<open>Run\<close> returns: nil (\<open>None\<close>), an
  error of the \<^verbatim>\<open>os/exec\<close> package, or a message set.
\<close>

datatype error = PlainError string | MessageSetError DrushMessageSet

text \<open>
  The loop over standard error: the state is the pair of the named result
  \<^verbatim>\<open>messages\<close> (nil at first) and the local \<^verbatim>\<open>errset\<close> (\<^verbatim>\<open>DrushMessageSet{}\<close>, empty
  but not nil). \<^verbatim>\<open>drainStderr\<close> is the whole loop of the reader goroutine, which is the
  only writer of \<^verbatim>\<open>messages\<close>.
\<close>

definition scanStderr ::
  "DrushMessageSet \<times> DrushMessageSet \<Rightarrow> string \<Rightarrow> DrushMessageSet \<times> DrushMessageSet" where
  "scanStderr st line =
     (let message = NewDrushMessage line
      in if Type message = DrushMessageOK
         then (appendMessage (fst st) message, snd st)
         else (fst st, appendMessage (snd st) message))"

definition drainStderr :: "Process \<Rightarrow> DrushMessageSet \<times> DrushMessageSet" where
  "drainStderr p = foldl scanStderr (None, Some []) (StderrLines p)"

text \<open>
  \<^verbatim>\<open>errset\<close> has two writers: the reader goroutine appends the message of each line
  that is not \<^verbatim>\<open>[ok]\<close>, and the main goroutine, when \<^verbatim>\<open>Wait\<close> returns an error, appends
  the message of that error. Nothing orders the second append against the loop, so it
  falls between two steps of the reader: after the first \<^term>\<open>HandledAtWait p\<close> lines
  and before the others (after all of them when that number is the number of lines or
  more). Each append is taken as one step. The value below is \<^verbatim>\<open>errset\<close> when
  \<^verbatim>\<open>wg.Wait()\<close> has returned.
\<close>

definition errsetAfterWait :: "Process \<Rightarrow> DrushMessageSet" where
  "errsetAfterWait p =
     (let handled = foldl scanStderr (None, Some []) (take (HandledAtWait p) (StderrLines p));
          errset = (case WaitErr p of
                      None \<Rightarrow> snd handled
                    | Some e \<Rightarrow> appendMessage (snd handled) (NewDrushMessage e))
      in snd (foldl scanStderr (fst handled, errset)
                (drop (HandledAtWait p) (StderrLines p))))"

text \<open>
  \<^verbatim>\<open>Run\<close> of the \<^verbatim>\<open>DrushMessageSet\<close> revision (drush.go, 361-416). Both results are
  read after \<^verbatim>\<open>wg.Wait()\<close>: \<^verbatim>\<open>messages\<close> is what the loop of the reader, its only
  writer, leaves in it; \<^verbatim>\<open>errset\<close> is what the two writers leave in it.
\<close>

definition Run :: "System \<Rightarrow> Drush \<Rightarrow> string \<times> DrushMessageSet \<times> error option" where
  "Run sys d =
     (let p = Exec sys (buildCommand sys d) in
      case StderrPipeErr p of
        Some e \<Rightarrow> ('''', None, Some (PlainError e))
      | None \<Rightarrow>
     (case StdoutPipeErr p of
        Some e \<Rightarrow> ('''', None, Some (PlainError e))
      | None \<Rightarrow>
     (case StartErr p of
        Some e \<Rightarrow> ('''', None, Some (PlainError e))
      | None \<Rightarrow>
        (let messages = fst (drainStderr p);
             errset = errsetAfterWait p;
             errs = (if HasErrors errset then Some (MessageSetError errset) else None)
         in (StdoutData p, messages, errs)))))"

text \<open>
  The same in the \<^verbatim>\<open>DrushMessages\<close> revision (drush.go, 149-204): \<^verbatim>\<open>[success]\<close>
  lines join \<^verbatim>\<open>messages\<close>, and the set is returned whenever it is not empty. The
  append after \<^verbatim>\<open>Wait\<close> precedes \<^verbatim>\<open>wg.Wait()\<close> here too.
\<close>

definition scanStderr_DrushMessages ::
  "DrushMessageSet \<times> DrushMessageSet \<Rightarrow> string \<Rightarrow> DrushMessageSet \<times> DrushMessageSet" where
  "scanStderr_DrushMessages st line =
     (let message = NewDrushMessage_DrushMessages line
      in if Type message = DrushMessageOK \<or> Type message = DrushMessageSuccess
         then (appendMessage (fst st) message, snd st)
         else (fst st, appendMessage (snd st) message))"

definition drainStderr_DrushMessages :: "Process \<Rightarrow> DrushMessageSet \<times> DrushMessageSet" where
  "drainStderr_DrushMessages p =
     foldl scanStderr_DrushMessages (None, Some []) (StderrLines p)"

definition errsetAfterWait_DrushMessages :: "Process \<Rightarrow> DrushMessageSet" where
  "errsetAfterWait_DrushMessages p =
     (let handled = foldl scanStderr_DrushMessages (None, Some [])
                      (take (HandledAtWait p) (StderrLines p));
          errset = (case WaitErr p of
                      None \<Rightarrow> snd handled
                    | Some e \<Rightarrow>
                        appendMessage (snd handled) (NewDrushMessage_DrushMessages e))
      in snd (foldl scanStderr_DrushMessages (fst handled, errset)
                (drop (HandledAtWait p) (StderrLines p))))"

definition Run_DrushMessages ::
  "System \<Rightarrow> Drush \<Rightarrow> string \<times> DrushMessageSet \<times> error option" where
  "Run_DrushMessages sys d =
     (let p = Exec sys (buildCommand sys d) in
      case StderrPipeErr p of
        Some e \<Rightarrow> ('''', None, Some (PlainError e))
      | None \<Rightarrow>
     (case StdoutPipeErr p of
        Some e \<Rightarrow> ('''', None, Some (PlainError e))
      | None \<Rightarrow>
     (case StartErr p of
        Some e \<Rightarrow> ('''', None, Some (PlainError e))
      | None \<Rightarrow>
        (let messages = fst (drainStderr_DrushMessages p);
             errset = errsetAfterWait_DrushMessages p;
             errs = (if errset \<noteq> None \<and> len errset > 0
                     then Some (MessageSetError errset) else None)
         in (StdoutData p, messages, errs)))))"

section \<open>Settings (settings.go)\<close>

text \<open>
  \<^verbatim>\<open>type Settings map[string]interface{}\<close>. A value of \<^verbatim>\<open>interface{}\<close> carries its
  dynamic type: the types the accessors assert, the two that \<^verbatim>\<open>encoding/json\<close>
  produces besides them (\<^verbatim>\<open>nil\<close> and \<^verbatim>\<open>map[string]interface{}\<close>), and any other.
  A \<^verbatim>\<open>float64\<close> is its 64 bits (the zero value is the word 0); the accessors only
  pass it on. Go's \<^verbatim>\<open>int\<close> has the width of the platform and is passed on as well, so
  it is an integer here. A map is an association list read with \<^const>\<open>map_of\<close>.
\<close>

datatype Value =
    VNil
  | VString string
  | VInt int
  | VBool bool
  | VFloat64 "64 word"
  | VSlice "Value list"
  | VMap "(string \<times> Value) list"
  | VSettings "(string \<times> Value) list"
  | VOther

type_synonym Settings = "(string \<times> Value) list"

text \<open>A single-value type assertion \<^verbatim>\<open>val.(T)\<close> on another dynamic type panics.\<close>

datatype panic = InterfaceConversion

definition HasValue :: "Settings \<Rightarrow> string \<Rightarrow> bool" where
  "HasValue s key = (case map_of s key of None \<Rightarrow> False | Some val \<Rightarrow> True)"

definition GetString :: "Settings \<Rightarrow> string \<Rightarrow> panic + string" where
  "GetString s key =
     (case map_of s key of
        None \<Rightarrow> Inr ''''
      | Some val \<Rightarrow> (case val of VString strval \<Rightarrow> Inr strval | _ \<Rightarrow> Inr ''''))"

definition GetInt :: "Settings \<Rightarrow> string \<Rightarrow> panic + int" where
  "GetInt s key =
     (case map_of s key of
        None \<Rightarrow> Inr 0
      | Some val \<Rightarrow> (case val of VInt intval \<Rightarrow> Inr intval | _ \<Rightarrow> Inr 0))"

definition GetBool :: "Settings \<Rightarrow> string \<Rightarrow> panic + bool" where
  "GetBool s key =
     (case map_of s key of
        None \<Rightarrow> Inr False
      | Some val \<Rightarrow> (case val of VBool boolval \<Rightarrow> Inr boolval | _ \<Rightarrow> Inr False))"

definition GetFloat :: "Settings \<Rightarrow> string \<Rightarrow> panic + 64 word" where
  "GetFloat s key =
     (case map_of s key of
        None \<Rightarrow> Inr 0
      | Some val \<Rightarrow> (case val of VFloat64 floatval \<Rightarrow> Inr floatval | _ \<Rightarrow> Inr 0))"

text \<open>The nil map is \<open>None\<close>.\<close>

definition GetAssocArray :: "Settings \<Rightarrow> string \<Rightarrow> panic + Settings option" where
  "GetAssocArray s key =
     (case map_of s key of
        None \<Rightarrow> Inr None
      | Some val \<Rightarrow>
          (case val of VSettings settingsval \<Rightarrow> Inr (Some settingsval) | _ \<Rightarrow> Inr None))"

text \<open>
  The loop of \<^verbatim>\<open>GetArray\<close> over \<^verbatim>\<open>arrayval\<close>: an element that is not a string is
  skipped.
\<close>

primrec rangeStrings :: "string list \<Rightarrow> Value list \<Rightarrow> string list" where
  "rangeStrings array [] = array"
| "rangeStrings array (subval # rest) =
     (case subval of
        VString strval \<Rightarrow> rangeStrings (array @ [strval]) rest
      | _ \<Rightarrow> rangeStrings array rest)"

text \<open>
  \<^verbatim>\<open>arrayval := val.([]interface{})\<close> has no second result. The nil slice is \<open>None\<close>;
  \<^verbatim>\<open>[]string{}\<close> is \<open>Some []\<close>.
\<close>

definition GetArray :: "Settings \<Rightarrow> string \<Rightarrow> panic + string list option" where
  "GetArray s key =
     (case map_of s key of
        None \<Rightarrow> Inr None
      | Some val \<Rightarrow>
          (case val of
             VSlice arrayval \<Rightarrow> Inr (Some (rangeStrings [] arrayval))
           | _ \<Rightarrow> Inl InterfaceConversion))"

section \<open>Database\<close>

record Database =
  Database :: string
  Username :: string
  Password :: string
  Prefix :: string
  Host :: string
  Port :: string
  Namespace :: string
  Driver :: string

text \<open>
  \<^verbatim>\<open>Open\<close> hands the driver name and the connection string to \<^verbatim>\<open>sql.Open\<close>, which is
  a parameter here, and returns what it returns.
\<close>

definition Open :: "(string \<Rightarrow> string \<Rightarrow> 'r) \<Rightarrow> Database \<Rightarrow> 'r" where
  "Open sql_Open db =
     (let connection = Username db;
          connection = (if Password db \<noteq> ''''
                        then connection @ '':'' @ Password db else connection);
          connection = connection @ ''@'' @ Host db;
          connection = (if Port db \<noteq> ''''
                        then connection @ '':'' @ Port db else connection);
          connection = connection @ ''/'' @ Database db
      in sql_Open (Driver db) connection)"

section \<open>Example inputs\<close>

text \<open>Concrete commands, processes, settings and connection details for the examples.\<close>

definition siteDrush :: Drush where
  "siteDrush =
     \<lparr>Directory = ''/var/www/drupalsite'', Command = ''pm-list'', Arguments = []\<rparr>"

definition quietProcess :: Process where
  "quietProcess =
     \<lparr>StderrPipeErr = None, StdoutPipeErr = None, StartErr = None,
      StderrLines = [], StdoutData = '''', WaitErr = None, HandledAtWait = 0\<rparr>"

text \<open>A system on which every command behaves as the given process.\<close>

definition systemOf :: "Process \<Rightarrow> System" where
  "systemOf p = \<lparr>Environ = [''HOME=/root''], Exec = (\<lambda>c. p)\<rparr>"

definition warningProcess :: Process where
  "warningProcess =
     quietProcess\<lparr>StderrLines :=
                    [''There are no stable releases for project views. [warning]''],
                  StdoutData := ''done''\<rparr>"






definition mixedSet :: "DrushMessage list" where
  "mixedSet =
     [\<lparr>Message = ''Old release'', Type = DrushMessageWarning\<rparr>,
      \<lparr>Message = ''exit status 1'', Type = DrushMessageUnknown\<rparr>]"

definition decodedSettings :: Settings where
  "decodedSettings =
     [(''hash_salt'', VString ''X''), (''list'', VSlice [VString ''a'', VString ''b''])]"

definition testDatabase :: Database where
  "testDatabase =
     \<lparr>Database = ''drupal'', Username = ''root'', Password = '''', Prefix = '''',
      Host = ''mysql'', Port = ''3306'', Namespace = '''', Driver = ''mysql''\<rparr>"

section \<open>Suffixes and trimming\<close>

lemma HasSuffix_append: "HasSuffix (b @ suf) suf"
  by (simp add: HasSuffix_def)

lemma HasSuffix_iff: "HasSuffix s suf \<longleftrightarrow> (\<exists>b. s = b @ suf)"
proof
  assume h: "HasSuffix s suf"
  then have "s = take (length s - length suf) s @ suf"
    unfolding HasSuffix_def by (metis append_take_drop_id)
  then show "\<exists>b. s = b @ suf" ..
next
  assume "\<exists>b. s = b @ suf"
  then show "HasSuffix s suf" by (auto simp: HasSuffix_def)
qed

lemma TrimSuffix_append: "TrimSuffix (b @ suf) suf = b"
  by (simp add: TrimSuffix_def HasSuffix_def)

text \<open>Read from the end, a suffix is a prefix: this decides suffix tests on literals.\<close>

lemma HasSuffix_rev: "HasSuffix s suf \<longleftrightarrow> take (length suf) (rev s) = rev suf"
proof
  assume "HasSuffix s suf"
  then obtain b where "s = b @ suf" using HasSuffix_iff by blast
  then show "take (length suf) (rev s) = rev suf" by simp
next
  assume h: "take (length suf) (rev s) = rev suf"
  have "rev s = take (length suf) (rev s) @ drop (length suf) (rev s)" by simp
  with h have "rev s = rev suf @ drop (length suf) (rev s)" by simp
  then have "rev (rev s) = rev (rev suf @ drop (length suf) (rev s))" by simp
  then have "s = rev (drop (length suf) (rev s)) @ suf" by simp
  then show "HasSuffix s suf" using HasSuffix_iff by blast
qed

lemma TrimLeftSpace_no_leading: "leadingSpace (TrimLeftSpace s) = 0"
proof (induction s rule: TrimLeftSpace.induct)
  case (1 s)
  show ?case
  proof (cases "leadingSpace s = 0")
    case True
    then show ?thesis by (simp add: TrimLeftSpace.simps)
  next
    case False
    with 1 show ?thesis by (subst TrimLeftSpace.simps) simp
  qed
qed

lemma TrimRightSpace_no_trailing: "trailingSpace (TrimRightSpace s) = 0"
proof (induction s rule: TrimRightSpace.induct)
  case (1 s)
  show ?case
  proof (cases "trailingSpace s = 0")
    case True
    then show ?thesis by (simp add: TrimRightSpace.simps)
  next
    case False
    with 1 show ?thesis by (subst TrimRightSpace.simps) simp
  qed
qed

lemma TrimSpace_no_trailing: "trailingSpace (TrimSpace s) = 0"
  by (simp add: TrimSpace_def TrimRightSpace_no_trailing)

lemma spaceRunes_nonempty: "e \<in> set spaceRunes \<Longrightarrow> e \<noteq> []"
  by (auto simp: spaceRunes_def)

lemma leadingSpace_zero_iff:
  "leadingSpace s = 0 \<longleftrightarrow> (\<forall>e\<in>set spaceRunes. take (length e) s \<noteq> e)"
proof (cases "find (\<lambda>e. take (length e) s = e) spaceRunes")
  case None
  then have "leadingSpace s = 0" by (simp add: leadingSpace_def)
  moreover from None have "\<forall>e\<in>set spaceRunes. take (length e) s \<noteq> e"
    by (auto simp: find_None_iff)
  ultimately show ?thesis by simp
next
  case (Some e)
  then have "e \<in> set spaceRunes" "take (length e) s = e"
    by (auto simp: find_Some_iff)
  with Some spaceRunes_nonempty [of e] show ?thesis
    by (auto simp: leadingSpace_def)
qed

lemma leadingSpace_take:
  assumes "leadingSpace s = 0"
  shows "leadingSpace (take n s) = 0"
proof -
  have "take (length e) (take n s) \<noteq> e" if "e \<in> set spaceRunes" for e
  proof
    assume eq: "take (length e) (take n s) = e"
    then have "length e = length (take (length e) (take n s))" by simp
    then have "length e \<le> n" by simp
    with eq have "take (length e) s = e" by (simp add: min_def)
    with assms that show False by (simp add: leadingSpace_zero_iff)
  qed
  then show ?thesis by (simp add: leadingSpace_zero_iff)
qed

lemma TrimRightSpace_keeps_no_leading:
  "leadingSpace s = 0 \<Longrightarrow> leadingSpace (TrimRightSpace s) = 0"
proof (induction s rule: TrimRightSpace.induct)
  case (1 s)
  show ?case
  proof (cases "trailingSpace s = 0")
    case True
    with 1 show ?thesis by (simp add: TrimRightSpace.simps)
  next
    case False
    with 1 leadingSpace_take show ?thesis by (subst TrimRightSpace.simps) simp
  qed
qed

lemma TrimSpace_no_leading: "leadingSpace (TrimSpace s) = 0"
  by (simp add: TrimSpace_def TrimRightSpace_keeps_no_leading TrimLeftSpace_no_leading)

text \<open>The trimmed text is a contiguous part of the line.\<close>

lemma TrimLeftSpace_drop: "\<exists>n. TrimLeftSpace s = drop n s"
proof (induction s rule: TrimLeftSpace.induct)
  case (1 s)
  show ?case
  proof (cases "leadingSpace s = 0")
    case True
    then have "TrimLeftSpace s = drop 0 s" by (simp add: TrimLeftSpace.simps)
    then show ?thesis ..
  next
    case False
    with 1 obtain n where "TrimLeftSpace (drop (leadingSpace s) s) = drop n (drop (leadingSpace s) s)"
      by blast
    with False have "TrimLeftSpace s = drop (n + leadingSpace s) s"
      by (subst TrimLeftSpace.simps) (simp add: add.commute)
    then show ?thesis ..
  qed
qed

lemma TrimRightSpace_take: "\<exists>n. TrimRightSpace s = take n s"
proof (induction s rule: TrimRightSpace.induct)
  case (1 s)
  show ?case
  proof (cases "trailingSpace s = 0")
    case True
    then have "TrimRightSpace s = take (length s) s" by (simp add: TrimRightSpace.simps)
    then show ?thesis ..
  next
    case False
    with 1 obtain n where
      "TrimRightSpace (take (length s - trailingSpace s) s) =
         take n (take (length s - trailingSpace s) s)"
      by blast
    with False have "TrimRightSpace s = take (min n (length s - trailingSpace s)) s"
      by (subst TrimRightSpace.simps) simp
    then show ?thesis ..
  qed
qed

lemma TrimSpace_part: "\<exists>pre post. s = pre @ TrimSpace s @ post"
proof -
  obtain n where n: "TrimLeftSpace s = drop n s" using TrimLeftSpace_drop by blast
  obtain k where k: "TrimRightSpace (drop n s) = take k (drop n s)"
    using TrimRightSpace_take by blast
  have "s = take n s @ take k (drop n s) @ drop k (drop n s)"
    by (simp only: append_take_drop_id)
  with n k show ?thesis unfolding TrimSpace_def by metis
qed

lemma TrimSpace_example: "TrimSpace ''  exit status 1 '' = ''exit status 1''"
  by code_simp

section \<open>The classifier\<close>

lemmas marker_defs = DrushMessageError_def DrushMessageWarning_def DrushMessageNotice_def
  DrushMessageOK_def DrushMessageSuccess_def DrushMessageUnknown_def

text \<open>
  For three of the four markers the classifier does what one expects: the type is the
  marker and the text is what precedes it, trimmed.
\<close>

lemma NewDrushMessage_error:
  "NewDrushMessage (b @ ''[error]'') = \<lparr>Message = TrimSpace b, Type = DrushMessageError\<rparr>"
  by (simp add: NewDrushMessage_def marker_defs HasSuffix_append TrimSuffix_append)

lemma NewDrushMessage_warning:
  "NewDrushMessage (b @ ''[warning]'') =
     \<lparr>Message = TrimSpace b, Type = DrushMessageWarning\<rparr>"
  by (simp add: NewDrushMessage_def marker_defs HasSuffix_rev TrimSuffix_append)

lemma NewDrushMessage_ok:
  "NewDrushMessage (b @ ''[ok]'') = \<lparr>Message = TrimSpace b, Type = DrushMessageOK\<rparr>"
  by (simp add: NewDrushMessage_def marker_defs HasSuffix_rev TrimSuffix_append)

text \<open>
  A \<^verbatim>\<open>[notice]\<close> line gets the type \<^verbatim>\<open>[warning]\<close>, and \<^verbatim>\<open>TrimSuffix\<close> is then asked to
  remove \<^verbatim>\<open>[warning]\<close>, which the line does not end in: the marker stays in the text.
\<close>

lemma NewDrushMessage_notice:
  "NewDrushMessage (b @ ''[notice]'') =
     \<lparr>Message = TrimSpace (b @ ''[notice]''), Type = DrushMessageWarning\<rparr>"
  by (simp add: NewDrushMessage_def marker_defs HasSuffix_rev TrimSuffix_def)

lemma NewDrushMessage_DrushMessages_notice:
  "NewDrushMessage_DrushMessages (b @ ''[notice]'') =
     \<lparr>Message = TrimSpace (b @ ''[notice]''), Type = DrushMessageWarning\<rparr>"
  by (simp add: NewDrushMessage_DrushMessages_def marker_defs HasSuffix_rev TrimSuffix_def)

text \<open>
  C1. Claim: a line ending in \<^verbatim>\<open>[error]\<close>, \<^verbatim>\<open>[warning]\<close>, \<^verbatim>\<open>[notice]\<close> or \<^verbatim>\<open>[ok]\<close> is
  given the marker's severity, and its stored text is the line without the marker and
  the white space around it. On the line \<^verbatim>\<open>Cache rebuild complete. [notice]\<close> both
  revisions of \<^verbatim>\<open>NewDrushMessage\<close> return the type \<^verbatim>\<open>[warning]\<close> and a text that still
  ends in \<^verbatim>\<open>[notice]\<close>.
\<close>

theorem NewDrushMessage_notice_marker_kept:
  "NewDrushMessage ''Cache rebuild complete. [notice]'' =
     \<lparr>Message = ''Cache rebuild complete. [notice]'', Type = DrushMessageWarning\<rparr>
   \<and> NewDrushMessage_DrushMessages ''Cache rebuild complete. [notice]'' =
     \<lparr>Message = ''Cache rebuild complete. [notice]'', Type = DrushMessageWarning\<rparr>"
  by code_simp

text \<open>
  C4, as stated: a line that ends in none of the four markers has the type
  \<^verbatim>\<open>[unknown]\<close> and its trimmed self as text. The line \<^verbatim>\<open>Bootstrap level [unknown]\<close>
  ends in none of them and is its own trimmed form, yet its stored text is
  \<^verbatim>\<open>Bootstrap level\<close>: the text of the type, \<^verbatim>\<open>[unknown]\<close>, is removed like any marker.
\<close>

theorem NewDrushMessage_unknown_suffix_removed:
  "\<not> HasSuffix ''Bootstrap level [unknown]'' DrushMessageError
   \<and> \<not> HasSuffix ''Bootstrap level [unknown]'' DrushMessageWarning
   \<and> \<not> HasSuffix ''Bootstrap level [unknown]'' DrushMessageNotice
   \<and> \<not> HasSuffix ''Bootstrap level [unknown]'' DrushMessageOK
   \<and> TrimSpace ''Bootstrap level [unknown]'' = ''Bootstrap level [unknown]''
   \<and> Message (NewDrushMessage ''Bootstrap level [unknown]'') = ''Bootstrap level''
   \<and> Message (NewDrushMessage ''Bootstrap level [unknown]'') \<noteq>
       TrimSpace ''Bootstrap level [unknown]''"
  by code_simp

text \<open>
  C4, amended: a line that ends in none of \<^verbatim>\<open>[error]\<close>, \<^verbatim>\<open>[warning]\<close>, \<^verbatim>\<open>[notice]\<close>,
  \<^verbatim>\<open>[ok]\<close> has the type \<^verbatim>\<open>[unknown]\<close>; its stored text is the line without a final
  \<^verbatim>\<open>[unknown]\<close>, if it has one, trimmed; so a line that does not end in \<^verbatim>\<open>[unknown]\<close>
  either is stored as its trimmed self.
\<close>

theorem NewDrushMessage_no_marker:
  assumes "\<not> HasSuffix line DrushMessageError"
    and "\<not> HasSuffix line DrushMessageWarning"
    and "\<not> HasSuffix line DrushMessageNotice"
    and "\<not> HasSuffix line DrushMessageOK"
  shows "Type (NewDrushMessage line) = DrushMessageUnknown
       \<and> Message (NewDrushMessage line) = TrimSpace (TrimSuffix line DrushMessageUnknown)
       \<and> (\<not> HasSuffix line DrushMessageUnknown \<longrightarrow>
            Message (NewDrushMessage line) = TrimSpace line)"
  using assms by (simp add: NewDrushMessage_def Let_def TrimSuffix_def)

text \<open>C4, the amended statement on a plain line and on a line ending in \<^verbatim>\<open>[unknown]\<close>.\<close>

theorem NewDrushMessage_no_marker_witness:
  "Type (NewDrushMessage ''  exit status 1 '') = DrushMessageUnknown
   \<and> Message (NewDrushMessage ''  exit status 1 '') = ''exit status 1''
   \<and> Message (NewDrushMessage ''Bootstrap level [unknown]'') = ''Bootstrap level''"
proof -
  have a: "\<not> HasSuffix ''  exit status 1 '' DrushMessageError" by code_simp
  have b: "\<not> HasSuffix ''  exit status 1 '' DrushMessageWarning" by code_simp
  have c: "\<not> HasSuffix ''  exit status 1 '' DrushMessageNotice" by code_simp
  have d: "\<not> HasSuffix ''  exit status 1 '' DrushMessageOK" by code_simp
  have e: "\<not> HasSuffix ''  exit status 1 '' DrushMessageUnknown" by code_simp
  have t: "TrimSpace ''  exit status 1 '' = ''exit status 1''" by code_simp
  have a': "\<not> HasSuffix ''Bootstrap level [unknown]'' DrushMessageError" by code_simp
  have b': "\<not> HasSuffix ''Bootstrap level [unknown]'' DrushMessageWarning" by code_simp
  have c': "\<not> HasSuffix ''Bootstrap level [unknown]'' DrushMessageNotice" by code_simp
  have d': "\<not> HasSuffix ''Bootstrap level [unknown]'' DrushMessageOK" by code_simp
  have t': "TrimSpace (TrimSuffix ''Bootstrap level [unknown]'' DrushMessageUnknown) =
      ''Bootstrap level''"
    by code_simp
  note plain = NewDrushMessage_no_marker [OF a b c d]
  note tagged = NewDrushMessage_no_marker [OF a' b' c' d']
  from plain e
  have "Message (NewDrushMessage ''  exit status 1 '') = TrimSpace ''  exit status 1 ''"
    by blast
  then have m: "Message (NewDrushMessage ''  exit status 1 '') = ''exit status 1''"
    by (simp only: t)
  from tagged have "Message (NewDrushMessage ''Bootstrap level [unknown]'') =
      TrimSpace (TrimSuffix ''Bootstrap level [unknown]'' DrushMessageUnknown)"
    by blast
  then have m': "Message (NewDrushMessage ''Bootstrap level [unknown]'') = ''Bootstrap level''"
    by (simp only: t')
  from plain m m' show ?thesis by blast
qed

text \<open>
  C5. \<^verbatim>\<open>NewDrushMessage\<close> calls nothing that can fail and reads nothing but its
  argument, so its model is a function on all strings. On the empty string it returns
  the type \<^verbatim>\<open>[unknown]\<close> with the empty text; on every line it returns one of four
  types, with the text that the two trimming calls compute from the line and that type.
\<close>

theorem NewDrushMessage_total:
  "NewDrushMessage [] = \<lparr>Message = [], Type = DrushMessageUnknown\<rparr>
   \<and> (\<forall>line. Type (NewDrushMessage line) \<in>
          {DrushMessageError, DrushMessageWarning, DrushMessageOK, DrushMessageUnknown}
        \<and> Message (NewDrushMessage line) =
            TrimSpace (TrimSuffix line (Type (NewDrushMessage line))))"
proof
  show "NewDrushMessage [] = \<lparr>Message = [], Type = DrushMessageUnknown\<rparr>"
    by code_simp
next
  show "\<forall>line. Type (NewDrushMessage line) \<in>
          {DrushMessageError, DrushMessageWarning, DrushMessageOK, DrushMessageUnknown}
        \<and> Message (NewDrushMessage line) =
            TrimSpace (TrimSuffix line (Type (NewDrushMessage line)))"
    by (simp add: NewDrushMessage_def Let_def)
qed

text \<open>C5 on the empty line and on the text of an exit status.\<close>

theorem NewDrushMessage_total_witness:
  "NewDrushMessage [] = \<lparr>Message = [], Type = DrushMessageUnknown\<rparr>
   \<and> Type (NewDrushMessage ''exit status 1'') \<in>
       {DrushMessageError, DrushMessageWarning, DrushMessageOK, DrushMessageUnknown}"
  using NewDrushMessage_total by blast

section \<open>The predicates of a message set\<close>

lemma rangeHasErrors_iff:
  "rangeHasErrors ms \<longleftrightarrow> (\<exists>m\<in>set ms. Type m = DrushMessageError)"
  by (induction ms) auto

lemma rangeHasWarnings_iff:
  "rangeHasWarnings ms \<longleftrightarrow> (\<exists>m\<in>set ms. Type m = DrushMessageWarning)"
  by (induction ms) auto

lemma rangeHasNotices_iff:
  "rangeHasNotices ms \<longleftrightarrow> (\<exists>m\<in>set ms. Type m = DrushMessageNotice)"
  by (induction ms) auto

lemma rangeHasUnknowns_iff:
  "rangeHasUnknowns ms \<longleftrightarrow> (\<exists>m\<in>set ms. Type m = DrushMessageUnknown)"
  by (induction ms) auto

text \<open>
  C7. On the nil set and on the empty set each of \<^verbatim>\<open>HasErrors\<close>, \<^verbatim>\<open>HasWarnings\<close>,
  \<^verbatim>\<open>HasNotices\<close>, \<^verbatim>\<open>HasUnknowns\<close> is false; on any set each is true exactly when some
  message of the set has that type.
\<close>

theorem Has_predicates:
  "\<not> HasErrors None \<and> \<not> HasWarnings None \<and> \<not> HasNotices None \<and> \<not> HasUnknowns None
   \<and> \<not> HasErrors (Some []) \<and> \<not> HasWarnings (Some [])
   \<and> \<not> HasNotices (Some []) \<and> \<not> HasUnknowns (Some [])
   \<and> (HasErrors (Some ms) \<longleftrightarrow> (\<exists>m\<in>set ms. Type m = DrushMessageError))
   \<and> (HasWarnings (Some ms) \<longleftrightarrow> (\<exists>m\<in>set ms. Type m = DrushMessageWarning))
   \<and> (HasNotices (Some ms) \<longleftrightarrow> (\<exists>m\<in>set ms. Type m = DrushMessageNotice))
   \<and> (HasUnknowns (Some ms) \<longleftrightarrow> (\<exists>m\<in>set ms. Type m = DrushMessageUnknown))"
  by (simp add: HasErrors_def HasWarnings_def HasNotices_def HasUnknowns_def
      rangeHasErrors_iff rangeHasWarnings_iff rangeHasNotices_iff rangeHasUnknowns_iff)

text \<open>C7 on a set of one warning and one unknown message.\<close>

theorem Has_predicates_witness:
  "\<not> HasErrors (Some mixedSet) \<and> HasWarnings (Some mixedSet)
   \<and> \<not> HasNotices (Some mixedSet) \<and> HasUnknowns (Some mixedSet)"
  using Has_predicates [of mixedSet]
  by (simp add: mixedSet_def marker_defs)

text \<open>
  C8. No line is given the type \<^verbatim>\<open>[notice]\<close>: a line ending in \<^verbatim>\<open>[notice]\<close> gets the
  type \<^verbatim>\<open>[warning]\<close>. Hence \<^verbatim>\<open>HasNotices\<close> is false on every set whose messages all
  come from \<^verbatim>\<open>NewDrushMessage\<close>.
\<close>

theorem NewDrushMessage_never_notice:
  "Type (NewDrushMessage line) \<noteq> DrushMessageNotice
   \<and> (HasSuffix line DrushMessageNotice \<longrightarrow>
        Type (NewDrushMessage line) = DrushMessageWarning)
   \<and> ((\<forall>m\<in>set ms. \<exists>l. m = NewDrushMessage l) \<longrightarrow> \<not> HasNotices (Some ms))"
proof (intro conjI impI)
  show n: "\<And>line. Type (NewDrushMessage line) \<noteq> DrushMessageNotice"
    by (simp add: NewDrushMessage_def Let_def marker_defs)
  show "Type (NewDrushMessage line) = DrushMessageWarning"
    if "HasSuffix line DrushMessageNotice"
  proof -
    from that obtain b where "line = b @ ''[notice]''"
      unfolding HasSuffix_iff DrushMessageNotice_def by blast
    then show ?thesis by (simp add: NewDrushMessage_notice)
  qed
  show "\<not> HasNotices (Some ms)" if "\<forall>m\<in>set ms. \<exists>l. m = NewDrushMessage l"
    using that n by (auto simp: HasNotices_def rangeHasNotices_iff)
qed

text \<open>C8 on a notice line and on the set of a notice line and a plain line.\<close>

theorem NewDrushMessage_never_notice_witness:
  "HasSuffix ''Cache rebuild complete. [notice]'' DrushMessageNotice
   \<and> Type (NewDrushMessage ''Cache rebuild complete. [notice]'') = DrushMessageWarning
   \<and> Type (NewDrushMessage ''Cache rebuild complete. [notice]'') \<noteq> DrushMessageNotice
   \<and> \<not> HasNotices (Some [NewDrushMessage ''Cache rebuild complete. [notice]'',
                          NewDrushMessage ''plain text''])"
proof -
  have h: "HasSuffix ''Cache rebuild complete. [notice]'' DrushMessageNotice"
    by code_simp
  have g: "\<forall>m\<in>set [NewDrushMessage ''Cache rebuild complete. [notice]'',
                     NewDrushMessage ''plain text'']. \<exists>l. m = NewDrushMessage l"
    by auto
  from h g NewDrushMessage_never_notice
      [of "''Cache rebuild complete. [notice]''"
          "[NewDrushMessage ''Cache rebuild complete. [notice]'',
            NewDrushMessage ''plain text'']"]
  show ?thesis by blast
qed

section \<open>Running a command\<close>

text \<open>The loop over standard error, as a filter of the classified lines.\<close>

lemma foldl_scanStderr:
  "foldl scanStderr (ms, Some es) lines =
     (case ms of
        None \<Rightarrow>
          (if filter (\<lambda>m. Type m = DrushMessageOK) (map NewDrushMessage lines) = [] then None
           else Some (filter (\<lambda>m. Type m = DrushMessageOK) (map NewDrushMessage lines)))
      | Some a \<Rightarrow> Some (a @ filter (\<lambda>m. Type m = DrushMessageOK) (map NewDrushMessage lines)),
      Some (es @ filter (\<lambda>m. Type m \<noteq> DrushMessageOK) (map NewDrushMessage lines)))"
proof (induction lines arbitrary: ms es)
  case Nil
  then show ?case by (simp split: option.splits)
next
  case (Cons l ls)
  show ?case
  proof (cases "Type (NewDrushMessage l) = DrushMessageOK")
    case True
    then have "scanStderr (ms, Some es) l = (appendMessage ms (NewDrushMessage l), Some es)"
      by (simp add: scanStderr_def)
    with True Cons.IH show ?thesis
      by (simp add: appendMessage_def split: option.splits)
  next
    case False
    then have "scanStderr (ms, Some es) l = (ms, Some (es @ [NewDrushMessage l]))"
      by (simp add: scanStderr_def appendMessage_def)
    with False Cons.IH show ?thesis
      by (simp split: option.splits)
  qed
qed


lemma foldl_scanStderr_DrushMessages:
  "foldl scanStderr_DrushMessages (ms, Some es) lines =
     (case ms of
        None \<Rightarrow>
          (if filter (\<lambda>m. Type m = DrushMessageOK \<or> Type m = DrushMessageSuccess)
                (map NewDrushMessage_DrushMessages lines) = [] then None
           else Some (filter (\<lambda>m. Type m = DrushMessageOK \<or> Type m = DrushMessageSuccess)
                (map NewDrushMessage_DrushMessages lines)))
      | Some a \<Rightarrow> Some (a @ filter (\<lambda>m. Type m = DrushMessageOK \<or> Type m = DrushMessageSuccess)
                (map NewDrushMessage_DrushMessages lines)),
      Some (es @ filter (\<lambda>m. \<not> (Type m = DrushMessageOK \<or> Type m = DrushMessageSuccess))
                (map NewDrushMessage_DrushMessages lines)))"
proof (induction lines arbitrary: ms es)
  case Nil
  then show ?case by (simp split: option.splits)
next
  case (Cons l ls)
  show ?case
  proof (cases "Type (NewDrushMessage_DrushMessages l) = DrushMessageOK
              \<or> Type (NewDrushMessage_DrushMessages l) = DrushMessageSuccess")
    case True
    then have "scanStderr_DrushMessages (ms, Some es) l =
        (appendMessage ms (NewDrushMessage_DrushMessages l), Some es)"
      by (simp add: scanStderr_DrushMessages_def)
    with True Cons.IH show ?thesis
      by (simp add: appendMessage_def split: option.splits)
  next
    case False
    then have "scanStderr_DrushMessages (ms, Some es) l =
        (ms, Some (es @ [NewDrushMessage_DrushMessages l]))"
      by (simp add: scanStderr_DrushMessages_def appendMessage_def)
    with False Cons.IH show ?thesis
      by (simp split: option.splits)
  qed
qed


text \<open>
  The final \<^verbatim>\<open>errset\<close>: the messages of the lines handled before the append after
  \<^verbatim>\<open>Wait\<close>, the message of the error of \<^verbatim>\<open>Wait\<close> if there is one, the messages of the
  lines handled later.
\<close>

lemma snd_foldl_scanStderr:
  "snd (foldl scanStderr (ms, Some es) lines) =
     Some (es @ filter (\<lambda>m. Type m \<noteq> DrushMessageOK) (map NewDrushMessage lines))"
  by (simp add: foldl_scanStderr)

lemma snd_foldl_scanStderr_DrushMessages:
  "snd (foldl scanStderr_DrushMessages (ms, Some es) lines) =
     Some (es @ filter (\<lambda>m. \<not> (Type m = DrushMessageOK \<or> Type m = DrushMessageSuccess))
                  (map NewDrushMessage_DrushMessages lines))"
  by (simp add: foldl_scanStderr_DrushMessages)

lemma errsetAfterWait_eq:
  "errsetAfterWait p =
     Some (filter (\<lambda>m. Type m \<noteq> DrushMessageOK)
             (map NewDrushMessage (take (HandledAtWait p) (StderrLines p)))
           @ (case WaitErr p of None \<Rightarrow> [] | Some e \<Rightarrow> [NewDrushMessage e])
           @ filter (\<lambda>m. Type m \<noteq> DrushMessageOK)
               (map NewDrushMessage (drop (HandledAtWait p) (StderrLines p))))"
proof -
  obtain a where h: "foldl scanStderr (None, Some []) (take (HandledAtWait p) (StderrLines p)) =
      (a, Some (filter (\<lambda>m. Type m \<noteq> DrushMessageOK)
                  (map NewDrushMessage (take (HandledAtWait p) (StderrLines p)))))"
    by (simp add: foldl_scanStderr)
  show ?thesis
    unfolding errsetAfterWait_def Let_def h
    by (simp add: snd_foldl_scanStderr appendMessage_def split: option.splits)
qed

lemma errsetAfterWait_DrushMessages_eq:
  "errsetAfterWait_DrushMessages p =
     Some (filter (\<lambda>m. \<not> (Type m = DrushMessageOK \<or> Type m = DrushMessageSuccess))
             (map NewDrushMessage_DrushMessages (take (HandledAtWait p) (StderrLines p)))
           @ (case WaitErr p of None \<Rightarrow> [] | Some e \<Rightarrow> [NewDrushMessage_DrushMessages e])
           @ filter (\<lambda>m. \<not> (Type m = DrushMessageOK \<or> Type m = DrushMessageSuccess))
               (map NewDrushMessage_DrushMessages (drop (HandledAtWait p) (StderrLines p))))"
proof -
  obtain a where h: "foldl scanStderr_DrushMessages (None, Some [])
        (take (HandledAtWait p) (StderrLines p)) =
      (a, Some (filter (\<lambda>m. \<not> (Type m = DrushMessageOK \<or> Type m = DrushMessageSuccess))
                  (map NewDrushMessage_DrushMessages
                     (take (HandledAtWait p) (StderrLines p)))))"
    by (simp add: foldl_scanStderr_DrushMessages)
  show ?thesis
    unfolding errsetAfterWait_DrushMessages_def Let_def h
    by (simp add: snd_foldl_scanStderr_DrushMessages appendMessage_def split: option.splits)
qed

text \<open>Whatever the schedule, the final set has the same members.\<close>

lemma set_filter_take_drop:
  "set (filter P (map f (take k xs))) \<union> set (filter P (map f (drop k xs))) =
     set (filter P (map f xs))"
  by (metis append_take_drop_id filter_append map_append set_append)

lemma set_errsetAfterWait:
  "set (filter (\<lambda>m. Type m \<noteq> DrushMessageOK)
          (map NewDrushMessage (take (HandledAtWait p) (StderrLines p)))
        @ (case WaitErr p of None \<Rightarrow> [] | Some e \<Rightarrow> [NewDrushMessage e])
        @ filter (\<lambda>m. Type m \<noteq> DrushMessageOK)
            (map NewDrushMessage (drop (HandledAtWait p) (StderrLines p)))) =
   set (filter (\<lambda>m. Type m \<noteq> DrushMessageOK) (map NewDrushMessage (StderrLines p))
        @ (case WaitErr p of None \<Rightarrow> [] | Some e \<Rightarrow> [NewDrushMessage e]))"
  using set_filter_take_drop
    [of "\<lambda>m. Type m \<noteq> DrushMessageOK" NewDrushMessage "HandledAtWait p" "StderrLines p"]
  by auto

text \<open>
  \<^verbatim>\<open>messages\<close> does not depend on the schedule: the loop resumed after the append,
  on any \<^verbatim>\<open>errset\<close>, ends with the \<^verbatim>\<open>messages\<close> of the whole loop.
\<close>

lemma messages_single_writer:
  "fst (foldl scanStderr
          (fst (foldl scanStderr (None, Some []) (take k lines)), Some es) (drop k lines)) =
   fst (foldl scanStderr (None, Some []) lines)"
proof -
  obtain a where h: "foldl scanStderr (None, Some []) (take k lines) =
      (a, Some (filter (\<lambda>m. Type m \<noteq> DrushMessageOK) (map NewDrushMessage (take k lines))))"
    by (simp add: foldl_scanStderr)
  have "foldl scanStderr (None, Some []) lines =
      foldl scanStderr (foldl scanStderr (None, Some []) (take k lines)) (drop k lines)"
    by (metis foldl_append append_take_drop_id)
  then have "fst (foldl scanStderr (None, Some []) lines) =
      fst (foldl scanStderr
             (a, Some (filter (\<lambda>m. Type m \<noteq> DrushMessageOK)
                         (map NewDrushMessage (take k lines)))) (drop k lines))"
    by (simp only: h)
  also have "\<dots> = fst (foldl scanStderr (a, Some es) (drop k lines))"
    by (simp add: foldl_scanStderr)
  finally show ?thesis by (simp add: h)
qed

lemma Run_started:
  assumes "StderrPipeErr (Exec sys (buildCommand sys d)) = None"
    and "StdoutPipeErr (Exec sys (buildCommand sys d)) = None"
    and "StartErr (Exec sys (buildCommand sys d)) = None"
  shows "Run sys d =
     (StdoutData (Exec sys (buildCommand sys d)),
      fst (drainStderr (Exec sys (buildCommand sys d))),
      if HasErrors (errsetAfterWait (Exec sys (buildCommand sys d)))
      then Some (MessageSetError (errsetAfterWait (Exec sys (buildCommand sys d))))
      else None)"
  using assms by (simp add: Run_def Let_def)

lemma Run_DrushMessages_started:
  assumes "StderrPipeErr (Exec sys (buildCommand sys d)) = None"
    and "StdoutPipeErr (Exec sys (buildCommand sys d)) = None"
    and "StartErr (Exec sys (buildCommand sys d)) = None"
  shows "Run_DrushMessages sys d =
     (StdoutData (Exec sys (buildCommand sys d)),
      fst (drainStderr_DrushMessages (Exec sys (buildCommand sys d))),
      if errsetAfterWait_DrushMessages (Exec sys (buildCommand sys d)) \<noteq> None
         \<and> len (errsetAfterWait_DrushMessages (Exec sys (buildCommand sys d))) > 0
      then Some (MessageSetError (errsetAfterWait_DrushMessages (Exec sys (buildCommand sys d))))
      else None)"
  using assms by (simp add: Run_DrushMessages_def Let_def)

text \<open>
  C2, as stated: \<^verbatim>\<open>Run\<close> returns an error exactly when the accumulated set is not
  empty. In the \<^verbatim>\<open>DrushMessageSet\<close> revision a command that writes one warning and exits
  with status 0 accumulates a set of length 1 and returns the nil error.
\<close>

theorem Run_warning_only_returns_nil:
  "len (errsetAfterWait
          (Exec (systemOf warningProcess) (buildCommand (systemOf warningProcess) siteDrush))) > 0
   \<and> snd (snd (Run (systemOf warningProcess) siteDrush)) = None"
  by code_simp

text \<open>
  C2, amended: once the process has started, \<^verbatim>\<open>Run\<close> of the \<^verbatim>\<open>DrushMessages\<close>
  revision returns the accumulated set as its error exactly when the set is not empty,
  and nil otherwise; \<^verbatim>\<open>Run\<close> of the \<^verbatim>\<open>DrushMessageSet\<close> revision returns the set
  exactly when one of its messages (the classified lines that are not \<^verbatim>\<open>[ok]\<close>,
  and the message of the exit status, if any) has the type \<^verbatim>\<open>[error]\<close>, and nil
  otherwise.
\<close>

theorem Run_error_gate:
  assumes "p = Exec sys (buildCommand sys d)"
    and "StderrPipeErr p = None" and "StdoutPipeErr p = None" and "StartErr p = None"
  shows "snd (snd (Run_DrushMessages sys d)) =
           (if len (errsetAfterWait_DrushMessages p) > 0
            then Some (MessageSetError (errsetAfterWait_DrushMessages p)) else None)
       \<and> snd (snd (Run sys d)) =
           (if \<exists>m\<in>set (filter (\<lambda>m. Type m \<noteq> DrushMessageOK)
                            (map NewDrushMessage (StderrLines p))
                          @ (case WaitErr p of None \<Rightarrow> [] | Some e \<Rightarrow> [NewDrushMessage e])).
                 Type m = DrushMessageError
            then Some (MessageSetError (errsetAfterWait p)) else None)"
proof
  have "errsetAfterWait_DrushMessages p \<noteq> None"
    by (simp add: errsetAfterWait_DrushMessages_eq)
  with assms show "snd (snd (Run_DrushMessages sys d)) =
           (if len (errsetAfterWait_DrushMessages p) > 0
            then Some (MessageSetError (errsetAfterWait_DrushMessages p)) else None)"
    by (simp add: Run_DrushMessages_started)
next
  have "HasErrors (errsetAfterWait p) \<longleftrightarrow>
          (\<exists>m\<in>set (filter (\<lambda>m. Type m \<noteq> DrushMessageOK)
                            (map NewDrushMessage (StderrLines p))
                          @ (case WaitErr p of None \<Rightarrow> [] | Some e \<Rightarrow> [NewDrushMessage e])).
                 Type m = DrushMessageError)"
    unfolding errsetAfterWait_eq HasErrors_def
    by (simp only: option.case rangeHasErrors_iff set_errsetAfterWait)
  with assms show "snd (snd (Run sys d)) =
           (if \<exists>m\<in>set (filter (\<lambda>m. Type m \<noteq> DrushMessageOK)
                            (map NewDrushMessage (StderrLines p))
                          @ (case WaitErr p of None \<Rightarrow> [] | Some e \<Rightarrow> [NewDrushMessage e])).
                 Type m = DrushMessageError
            then Some (MessageSetError (errsetAfterWait p)) else None)"
    by (simp add: Run_started)
qed

text \<open>C2, the amended statement on the command that writes one warning.\<close>

theorem Run_error_gate_witness:
  "warningProcess = Exec (systemOf warningProcess) (buildCommand (systemOf warningProcess) siteDrush)
   \<and> StderrPipeErr warningProcess = None \<and> StdoutPipeErr warningProcess = None
   \<and> StartErr warningProcess = None
   \<and> snd (snd (Run_DrushMessages (systemOf warningProcess) siteDrush)) =
       Some (MessageSetError (Some
         [\<lparr>Message = ''There are no stable releases for project views.'',
           Type = DrushMessageWarning\<rparr>]))
   \<and> snd (snd (Run (systemOf warningProcess) siteDrush)) = None"
proof -
  have h0: "warningProcess =
      Exec (systemOf warningProcess) (buildCommand (systemOf warningProcess) siteDrush)"
    by (simp add: systemOf_def)
  have h1: "StderrPipeErr warningProcess = None"
    and h2: "StdoutPipeErr warningProcess = None"
    and h3: "StartErr warningProcess = None"
    by (simp_all add: warningProcess_def quietProcess_def)
  note gate = Run_error_gate [OF h0 h1 h2 h3]
  from gate have "snd (snd (Run_DrushMessages (systemOf warningProcess) siteDrush)) =
           (if len (errsetAfterWait_DrushMessages warningProcess) > 0
            then Some (MessageSetError (errsetAfterWait_DrushMessages warningProcess)) else None)"
    by blast
  also have "\<dots> = Some (MessageSetError (Some
         [\<lparr>Message = ''There are no stable releases for project views.'',
           Type = DrushMessageWarning\<rparr>]))"
    by code_simp
  finally have a: "snd (snd (Run_DrushMessages (systemOf warningProcess) siteDrush)) =
       Some (MessageSetError (Some
         [\<lparr>Message = ''There are no stable releases for project views.'',
           Type = DrushMessageWarning\<rparr>]))" .
  from gate have "snd (snd (Run (systemOf warningProcess) siteDrush)) =
           (if \<exists>m\<in>set (filter (\<lambda>m. Type m \<noteq> DrushMessageOK)
                            (map NewDrushMessage (StderrLines warningProcess))
                          @ (case WaitErr warningProcess of None \<Rightarrow> []
                             | Some e \<Rightarrow> [NewDrushMessage e])).
                 Type m = DrushMessageError
            then Some (MessageSetError (errsetAfterWait warningProcess)) else None)"
    by blast
  also have "\<dots> = None"
    by code_simp
  finally have b: "snd (snd (Run (systemOf warningProcess) siteDrush)) = None" .
  from h0 h1 h2 h3 a b show ?thesis by blast
qed






section \<open>Settings\<close>

text \<open>
  The five accessors that use the two-result form of the type assertion return on every
  map and key.
\<close>

lemma GetString_returns: "\<exists>v. GetString s key = Inr v"
  by (simp add: GetString_def split: option.splits Value.splits)

lemma GetInt_returns: "\<exists>v. GetInt s key = Inr v"
  by (simp add: GetInt_def split: option.splits Value.splits)

lemma GetBool_returns: "\<exists>v. GetBool s key = Inr v"
  by (auto simp: GetBool_def split: option.splits Value.splits)

lemma GetFloat_returns: "\<exists>v. GetFloat s key = Inr v"
  by (simp add: GetFloat_def split: option.splits Value.splits)

lemma GetAssocArray_returns: "\<exists>v. GetAssocArray s key = Inr v"
  by (simp add: GetAssocArray_def split: option.splits Value.splits)

text \<open>\<^verbatim>\<open>GetArray\<close> panics exactly when the key holds a value that is not a slice.\<close>

lemma GetArray_panics_iff:
  "GetArray s key = Inl InterfaceConversion \<longleftrightarrow>
     (\<exists>val. map_of s key = Some val \<and> (\<forall>arrayval. val \<noteq> VSlice arrayval))"
  by (auto simp: GetArray_def split: option.splits Value.splits)

text \<open>The three reads that the round trip of the specification names.\<close>

lemma decodedSettings_reads:
  "GetString decodedSettings ''hash_salt'' = Inr ''X''
   \<and> GetArray decodedSettings ''list'' = Inr (Some [''a'', ''b''])
   \<and> GetString decodedSettings ''missing'' = Inr ''''"
  by code_simp

text \<open>
  C6. Claim: no accessor fails, whatever the map and the key, and a value of the wrong
  dynamic type gives the zero value. On the settings decoded from
  \<^verbatim>\<open>{"hash_salt": "X", "list": ["a","b"]}\<close>, \<^verbatim>\<open>GetArray("hash_salt")\<close> finds a string
  where it asserts a slice, and panics.
\<close>

theorem GetArray_of_string_panics:
  "GetArray decodedSettings ''hash_salt'' = Inl InterfaceConversion"
  by code_simp

section \<open>Opening the database\<close>

text \<open>
  C10. \<^verbatim>\<open>Open\<close> passes to \<^verbatim>\<open>sql.Open\<close> the \<^verbatim>\<open>Driver\<close> field and the string made
  of the user name, then \<^verbatim>\<open>:\<close> and the password if the password is not empty, then
  \<^verbatim>\<open>@\<close> and the host, then \<^verbatim>\<open>:\<close> and the port if the port is not empty, then
  \<^verbatim>\<open>/\<close> and the database name.
\<close>

theorem Open_connection_string:
  "Open sql_Open db =
     sql_Open (Driver db)
       (Username db
        @ (if Password db = '''' then '''' else '':'' @ Password db)
        @ ''@'' @ Host db
        @ (if Port db = '''' then '''' else '':'' @ Port db)
        @ ''/'' @ Database db)"
  by (simp add: Open_def Let_def)

text \<open>C10 on the connection of the test site, and with a password and no port.\<close>

theorem Open_connection_string_witness:
  "Open Pair testDatabase = (''mysql'', ''root@mysql:3306/drupal'')
   \<and> Open Pair (testDatabase\<lparr>Password := ''secret'', Port := ''''\<rparr>) =
       (''mysql'', ''root:secret@mysql/drupal'')"
  using Open_connection_string [of Pair testDatabase]
    Open_connection_string [of Pair "testDatabase\<lparr>Password := ''secret'', Port := ''''\<rparr>"]
  by (simp add: testDatabase_def)

end
